theory Spec2Isabelle
  imports Main "HOL-Library.Multiset"
begin

section \<open>Python values used by the past-paper handler\<close>

text \<open>
  The development embeds \<^verbatim>\<open>src/pastpaper_handler.py\<close>. Python integers are
  \<^typ>\<open>int\<close>, lists are HOL lists, dictionaries are maps, and every exception the
  code can raise is a value of \<open>py_error\<close> returned on the left of a sum.

  A Python \<^verbatim>\<open>str\<close> is modelled by \<^typ>\<open>string\<close>; each \<^typ>\<open>char\<close> stands for
  one code point below 256 (the Latin-1 range), so \<^const>\<open>length\<close> is Python's
  \<^verbatim>\<open>len\<close> on such text.
\<close>

datatype py_error =
    IndexError
  | ExternalError string

text \<open>
  \<^verbatim>\<open>xs[i:j]\<close> for a list: a negative bound counts from the end, and both bounds
  are clamped to the list.
\<close>

definition py_slice :: "'a list \<Rightarrow> int \<Rightarrow> int \<Rightarrow> 'a list" where
  "py_slice xs i j =
     (let n = int (length xs);
          lo = (if i < 0 then max (i + n) 0 else min i n);
          hi = (if j < 0 then max (j + n) 0 else min j n)
      in take (nat (hi - lo)) (drop (nat lo) xs))"

text \<open>\<^verbatim>\<open>xs[i]\<close>: a negative index counts from the end; out of range raises.\<close>

definition py_index :: "'a list \<Rightarrow> int \<Rightarrow> py_error + 'a" where
  "py_index xs i =
     (if 0 \<le> i \<and> i < int (length xs) then Inr (xs ! nat i)
      else if i < 0 \<and> - int (length xs) \<le> i then Inr (xs ! nat (int (length xs) + i))
      else Inl IndexError)"

section \<open>PastPaperSession\<close>

record session =
  unit_code :: "string option"
  year :: "string option"
  current_batch :: int
  questions :: "string list"
  user_answers :: "int \<rightharpoonup> string"
  model_answers :: "int \<rightharpoonup> string"
  is_active :: bool
  total_questions :: int

text \<open>The dataclass defaults, that is the object \<^verbatim>\<open>PastPaperSession()\<close>.\<close>

definition new_session :: session where
  "new_session =
     \<lparr>unit_code = None, year = None, current_batch = 0, questions = [],
      user_answers = Map.empty, model_answers = Map.empty,
      is_active = False, total_questions = 0\<rparr>"

text \<open>\<^verbatim>\<open>reset\<close> runs \<^verbatim>\<open>self.__init__()\<close>: every field returns to its default.\<close>

definition reset :: "session \<Rightarrow> session" where
  "reset s = new_session"

definition start_paper :: "session \<Rightarrow> string \<Rightarrow> string \<Rightarrow> string list \<Rightarrow> session" where
  "start_paper s uc yr qs =
     s\<lparr>unit_code := Some uc, year := Some yr, questions := qs,
       total_questions := int (length qs), current_batch := 0,
       is_active := True, user_answers := Map.empty, model_answers := Map.empty\<rparr>"

text \<open>
  \<^verbatim>\<open>get_next_batch(batch_size)\<close> returns the pair \<^verbatim>\<open>(batch, has_more)\<close> and has
  incremented \<^verbatim>\<open>current_batch\<close>; the updated session is the second component.
\<close>

definition get_next_batch :: "session \<Rightarrow> int \<Rightarrow> (string list \<times> bool) \<times> session" where
  "get_next_batch s batch_size =
     (let start_idx = current_batch s * batch_size;
          end_idx = min (start_idx + batch_size) (total_questions s);
          batch = py_slice (questions s) start_idx end_idx;
          has_more = (end_idx < total_questions s)
      in ((batch, has_more), s\<lparr>current_batch := current_batch s + 1\<rparr>))"

text \<open>
  \<^verbatim>\<open>get_current_progress\<close> renders \<^verbatim>\<open>Questions {shown}/{total}\<close>; the model keeps
  the two numbers.
\<close>

definition get_current_progress :: "session \<Rightarrow> int \<times> int" where
  "get_current_progress s =
     (min (current_batch s * 5) (total_questions s), total_questions s)"

definition save_answer :: "session \<Rightarrow> int \<Rightarrow> string \<Rightarrow> session" where
  "save_answer s question_num answer =
     s\<lparr>user_answers := (user_answers s)(question_num \<mapsto> answer)\<rparr>"

text \<open>
  The representation invariant of a session object: the cursor is not negative and
  \<^verbatim>\<open>total_questions\<close> is the length of \<^verbatim>\<open>questions\<close>. It holds for
  \<^const>\<open>new_session\<close> and after \<^const>\<open>start_paper\<close>, and every method keeps it.
\<close>

definition session_wf :: "session \<Rightarrow> bool" where
  "session_wf s \<longleftrightarrow>
     0 \<le> current_batch s \<and> total_questions s = int (length (questions s))"

section \<open>Responses of the dialogue handler\<close>

text \<open>
  Every \<^verbatim>\<open>return\<close> of \<^verbatim>\<open>EnhancedPastPaperChain\<close> yields a message; the model
  has one constructor per \<^verbatim>\<open>return\<close> statement, carrying the values the message
  is formatted from.
  \<^item> \<open>Stopped\<close>: "Ending past paper session. ..." (\<^verbatim>\<open>handle_past_paper_request\<close>)
  \<^item> \<open>NotFound uc yr\<close>: "I couldn't find a past paper matching your criteria ..."
  \<^item> \<open>NoQuestions\<close>: "I found the past paper but couldn't extract the questions properly. ..."
  \<^item> \<open>Starting uc yr total batch has_more\<close>: "Starting ... Past Paper", the first batch
  \<^item> \<open>NoSessionNext\<close>: "No active past paper session. Would you like to start one? ..."
  \<^item> \<open>Completed\<close>: "You've completed all questions in this past paper! ..."
  \<^item> \<open>Continuing uc yr progress start_num batch has_more\<close>: "Continuing ...", a batch
  \<^item> \<open>NoSessionFirst\<close>: "No active past paper session. Please start one first."
  \<^item> \<open>InvalidQuestionNumber\<close>: "Please specify a valid question number for clarification."
  \<^item> \<open>Clarification q text\<close>: "Clarification and Solution for Question q: ..."
  \<^item> \<open>NeedNumberAndAnswer\<close>: "Please provide both the question number and your answer."
  \<^item> \<open>Feedback q answer feedback\<close>: "Your answer for Question q: ... Feedback: ..."
\<close>

datatype response =
    Stopped
  | NotFound "string option" "string option"
  | NoQuestions
  | Starting "string option" "string option" int "string list" bool
  | NoSessionNext
  | Completed
  | Continuing "string option" "string option" "int \<times> int" int "string list" bool
  | NoSessionFirst
  | InvalidQuestionNumber
  | Clarification int string
  | NeedNumberAndAnswer
  | Feedback int string string

text \<open>
  \<^verbatim>\<open>_show_next_batch\<close>: the batch size is the default 5 of
  \<^verbatim>\<open>get_next_batch\<close>; an empty batch resets the session.
\<close>

definition show_next_batch :: "session \<Rightarrow> response \<times> session" where
  "show_next_batch s =
     (if \<not> is_active s then (NoSessionNext, s)
      else
        (let ((batch, has_more), s1) = get_next_batch s 5 in
         if batch = [] then (Completed, reset s1)
         else
           (let start_num = (current_batch s1 - 1) * 5 + 1 in
            (Continuing (unit_code s1) (year s1) (get_current_progress s1)
               start_num batch has_more, s1))))"

section \<open>Text primitives\<close>

text \<open>
  Character classes of Python's \<^verbatim>\<open>re\<close> and \<^verbatim>\<open>str\<close> on code points below 256:
  \<^verbatim>\<open>\s\<close> and \<^verbatim>\<open>str.strip\<close> use \<^verbatim>\<open>str.isspace\<close> (code points 9-13, 28-32, 133
  and 160), \<^verbatim>\<open>\d\<close> is the ten ASCII digits.
\<close>

definition is_space :: "char \<Rightarrow> bool" where
  "is_space c =
     (let n = (of_char c :: nat)
      in (9 \<le> n \<and> n \<le> 13) \<or> (28 \<le> n \<and> n \<le> 32) \<or> n = 133 \<or> n = 160)"

definition is_digit :: "char \<Rightarrow> bool" where
  "is_digit c = (let n = (of_char c :: nat) in 48 \<le> n \<and> n \<le> 57)"

definition newline :: char where
  "newline = CHR ''\<newline>''"

text \<open>\<^verbatim>\<open>s.strip()\<close>\<close>

definition strip :: "string \<Rightarrow> string" where
  "strip s = rev (dropWhile is_space (rev (dropWhile is_space s)))"

text \<open>
  \<^verbatim>\<open>int(num_str)\<close> on a string of ASCII digits, as the pattern's \<^verbatim>\<open>\d+\<close> yields
  it. The interpreter's configurable limit on the length of a decimal string that
  \<^verbatim>\<open>int\<close> converts (4300 digits by default) is not part of the model.
\<close>

definition digit_val :: "char \<Rightarrow> int" where
  "digit_val c = int (of_char c) - 48"

definition py_int :: "string \<Rightarrow> int" where
  "py_int ds = foldl (\<lambda>a c. 10 * a + digit_val c) 0 ds"

text \<open>\<^verbatim>\<open>str(n)\<close> for an integer, as an f-string renders it.\<close>

function str_nat :: "nat \<Rightarrow> string" where
  "str_nat n =
     (if n < 10 then [char_of (48 + n)]
      else str_nat (n div 10) @ [char_of (48 + n mod 10)])"
  by pat_completeness auto
termination
  by (relation "measure (\<lambda>n. n)") auto

declare str_nat.simps [simp del]

definition py_str :: "int \<Rightarrow> string" where
  "py_str i = (if i < 0 then CHR ''-'' # str_nat (nat (- i)) else str_nat (nat i))"

text \<open>\<^verbatim>\<open>"\n".join(parts)\<close>\<close>

fun join_lines :: "string list \<Rightarrow> string" where
  "join_lines [] = []"
| "join_lines [x] = x"
| "join_lines (x # y # ys) = x @ newline # join_lines (y # ys)"

text \<open>The remainder of \<open>s\<close> after the literal \<open>p\<close>, when \<open>s\<close> starts with it.\<close>

fun strip_prefix :: "string \<Rightarrow> string \<Rightarrow> string option" where
  "strip_prefix [] s = Some s"
| "strip_prefix (p # ps) [] = None"
| "strip_prefix (p # ps) (c # cs) = (if p = c then strip_prefix ps cs else None)"

section \<open>PastPaperProcessor: extracting the questions\<close>

text \<open>
  The compiled pattern is, with flags \<^verbatim>\<open>(?ms)\<close>,
  \<^verbatim>\<open>^\s*(?:Q(?:uestion)?\s*)?(?:\((\d+)\)|(\d+)[\.:)])\s+(.*?)(?=MARKER|\Z)\<close>
  where \<^verbatim>\<open>MARKER\<close> repeats the part before \<^verbatim>\<open>(.*?)\<close> without groups.

  \<open>number_token\<close> is the alternative \<^verbatim>\<open>\((\d+)\)|(\d+)[\.:)]\<close>: it returns the
  digits (group 1 or group 2) and the text after the token. The character after a
  greedy \<^verbatim>\<open>\d+\<close> must be a closing character, which is no digit, so only the
  longest run of digits can match.
\<close>

definition number_token :: "string \<Rightarrow> (string \<times> string) option" where
  "number_token s =
     (case s of
        [] \<Rightarrow> None
      | c # r \<Rightarrow>
          if c = CHR ''('' then
            (let ds = takeWhile is_digit r; r' = dropWhile is_digit r in
             case r' of
               [] \<Rightarrow> None
             | d # r'' \<Rightarrow> if ds \<noteq> [] \<and> d = CHR '')'' then Some (ds, r'') else None)
          else
            (let ds = takeWhile is_digit s; r' = dropWhile is_digit s in
             case r' of
               [] \<Rightarrow> None
             | d # r'' \<Rightarrow>
                 if ds \<noteq> [] \<and> (d = CHR ''.'' \<or> d = CHR '':'' \<or> d = CHR '')'')
                 then Some (ds, r'') else None))"

text \<open>
  \<open>marker\<close> is the part \<^verbatim>\<open>\s*(?:Q(?:uestion)?\s*)?(?:...)\s+\<close> matched at the
  start of \<open>s\<close> (the caller checks \<^verbatim>\<open>^\<close>). The result is the digits, the
  white space consumed by \<^verbatim>\<open>\s+\<close> and the text after it. Each greedy item is
  followed by an item that cannot start with a character the greedy item accepts
  (\<^verbatim>\<open>Q\<close>, a parenthesis or a digit after white space; white space, a parenthesis
  or a digit after \<^verbatim>\<open>Q\<close> or \<^verbatim>\<open>Question\<close>), so backtracking finds no other
  match; and the lazy group and the look-ahead always succeed at the end of the input
  at the latest, so \<^verbatim>\<open>\s+\<close> keeps its longest run.
\<close>

definition marker :: "string \<Rightarrow> (string \<times> string \<times> string) option" where
  "marker s =
     (let s1 = dropWhile is_space s;
          s2 = (case s1 of
                  [] \<Rightarrow> s1
                | c # r \<Rightarrow>
                    if c = CHR ''Q'' then
                      dropWhile is_space
                        (case strip_prefix ''uestion'' r of Some r' \<Rightarrow> r' | None \<Rightarrow> r)
                    else s1)
      in case number_token s2 of
           None \<Rightarrow> None
         | Some (ds, s3) \<Rightarrow>
             (let ws = takeWhile is_space s3 in
              if ws = [] then None else Some (ds, ws, dropWhile is_space s3)))"

text \<open>
  The lazy group \<^verbatim>\<open>(.*?)\<close> with its look-ahead: the group ends at the first
  position that is the end of the input, or the start of a line (\<open>bol\<close>) where
  \<open>marker\<close> matches. The result is the group's text and the input from there.
\<close>

fun lazy_body :: "bool \<Rightarrow> string \<Rightarrow> string \<times> string" where
  "lazy_body bol [] = ([], [])"
| "lazy_body bol (c # cs) =
     (if bol \<and> marker (c # cs) \<noteq> None then ([], c # cs)
      else (let (b, r) = lazy_body (c = newline) cs in (c # b, r)))"


lemma number_token_shorter:
  assumes "number_token s = Some (ds, r)"
  shows "length r < length s"
proof -
  have drop_le: "length (dropWhile is_digit t) \<le> length t" for t
    by (rule length_dropWhile_le)
  show ?thesis
  proof (cases s)
    case Nil
    with assms show ?thesis by (simp add: number_token_def)
  next
    case (Cons c t)
    show ?thesis
    proof (cases "c = CHR ''(''")
      case True
      with assms Cons obtain d where "dropWhile is_digit t = d # r"
        by (auto simp: number_token_def Let_def split: list.splits if_splits)
      with drop_le [of t] Cons show ?thesis by simp
    next
      case False
      with assms Cons obtain d where "dropWhile is_digit s = d # r"
        by (auto simp: number_token_def Let_def split: list.splits if_splits)
      with drop_le [of s] show ?thesis by simp
    qed
  qed
qed

lemma marker_shorter:
  assumes "marker s = Some (ds, ws, r)"
  shows "length r < length s"
proof -
  define s1 where "s1 = dropWhile is_space s"
  define s2 where "s2 = (case s1 of
                  [] \<Rightarrow> s1
                | c # r \<Rightarrow>
                    if c = CHR ''Q'' then
                      dropWhile is_space
                        (case strip_prefix ''uestion'' r of Some r' \<Rightarrow> r' | None \<Rightarrow> r)
                    else s1)"
  have pre: "strip_prefix p t = Some t' \<Longrightarrow> length t' \<le> length t" for p t t'
    by (induction p t rule: strip_prefix.induct) (auto split: if_splits)
  have s1: "length s1 \<le> length s"
    unfolding s1_def by (rule length_dropWhile_le)
  have s2: "length s2 \<le> length s1"
  proof (cases s1)
    case Nil
    then show ?thesis by (simp add: s2_def)
  next
    case (Cons c t)
    show ?thesis
    proof (cases "c = CHR ''Q''")
      case False
      with Cons show ?thesis by (simp add: s2_def)
    next
      case True
      have "length (case strip_prefix ''uestion'' t of Some r' \<Rightarrow> r' | None \<Rightarrow> t) \<le> length t"
        using pre [of "''uestion''" t] by (cases "strip_prefix ''uestion'' t") auto
      moreover have "length s2 \<le>
          length (case strip_prefix ''uestion'' t of Some r' \<Rightarrow> r' | None \<Rightarrow> t)"
        using True Cons unfolding s2_def by (simp add: length_dropWhile_le)
      ultimately show ?thesis using Cons by simp
    qed
  qed
  from assms obtain s3 where tok: "number_token s2 = Some (ds, s3)"
    and r: "r = dropWhile is_space s3"
    unfolding marker_def s1_def [symmetric] Let_def s2_def [symmetric]
    by (auto split: option.splits if_splits)
  have "length r \<le> length s3"
    unfolding r by (rule length_dropWhile_le)
  with number_token_shorter [OF tok] s1 s2 show ?thesis by simp
qed

lemma lazy_body_shorter: "length (snd (lazy_body bol s)) \<le> length s"
  by (induction bol s rule: lazy_body.induct) (auto split: prod.splits)

text \<open>
  \<^verbatim>\<open>question_pattern.finditer(all_content)\<close>: the pairs (digits, group 3) of the
  successive matches. The pattern starts with \<^verbatim>\<open>^\<close>, so a match can only start
  where \<open>bol\<close> holds (the start of the input or just after a newline); the search
  for the next match resumes where the previous match ended.
\<close>

function finditer :: "bool \<Rightarrow> string \<Rightarrow> (string \<times> string) list" where
  "finditer bol s =
     (case (if bol then marker s else None) of
        Some (ds, ws, r) \<Rightarrow>
          (ds, fst (lazy_body (last ws = newline) r))
            # finditer True (snd (lazy_body (last ws = newline) r))
      | None \<Rightarrow> (case s of [] \<Rightarrow> [] | c # cs \<Rightarrow> finditer (c = newline) cs))"
  by pat_completeness auto
termination
proof (relation "measure (\<lambda>(bol, s). length s)")
  show "wf (measure (\<lambda>(bol, s). length s))" by simp
next
  fix bol :: bool and s :: string and c cs
  assume "s = c # cs"
  then show "((c = newline, cs), bol, s) \<in> measure (\<lambda>(bol, s). length s)" by simp
next
  fix bol s x2 ds y ws r
  assume "(if bol then marker s else None) = Some x2" "(ds, y) = x2" "(ws, r) = y"
  then have "marker s = Some (ds, ws, r)" by (auto split: if_splits)
  from marker_shorter [OF this] lazy_body_shorter [of "last ws = newline" r]
  show "((True, snd (lazy_body (last ws = newline) r)), bol, s)
          \<in> measure (\<lambda>(bol, s). length s)"
    by simp
qed

declare finditer.simps [simp del]

text \<open>The f-string \<^verbatim>\<open>f"Question {q_num}: {q_text}"\<close>.\<close>

definition render_question :: "int \<Rightarrow> string \<Rightarrow> string" where
  "render_question q_num q_text = ''Question '' @ py_str q_num @ '': '' @ q_text"

text \<open>
  The candidates kept from the matches: the parsed number and the stripped text of
  every match whose stripped text has more than 3 characters.
\<close>

definition extracted :: "(string \<times> string) list \<Rightarrow> (int \<times> string) list" where
  "extracted ms =
     map (\<lambda>(num_str, body). (py_int num_str, strip body))
       (filter (\<lambda>(num_str, body). 3 < length (strip body)) ms)"

text \<open>
  \<^verbatim>\<open>sorted(extracted, key=lambda x: x[0])\<close> is a stable sort on the number, as
  \<^const>\<open>sort_key\<close> is; each candidate is then rendered with its own number.
\<close>

definition numbered_questions :: "string \<Rightarrow> string list" where
  "numbered_questions all_content =
     map (\<lambda>(q_num, q_text). render_question q_num q_text)
       (sort_key fst (extracted (finditer True all_content)))"

text \<open>
  \<^verbatim>\<open>re.split(r"\n\n+", text)\<close>: the pieces between the maximal runs of two or more
  newlines.
\<close>

function split_blank :: "string \<Rightarrow> string list" where
  "split_blank [] = [[]]"
| "split_blank (c # cs) =
     (if c = newline \<and> cs \<noteq> [] \<and> hd cs = newline
      then [] # split_blank (dropWhile (\<lambda>d. d = newline) cs)
      else (case split_blank cs of [] \<Rightarrow> [[c]] | p # ps \<Rightarrow> (c # p) # ps))"
  by pat_completeness auto
termination
  by (relation "measure length") (auto simp: le_imp_less_Suc length_dropWhile_le)

text \<open>
  The fallback. \<open>sections\<close> is the list
  \<^verbatim>\<open>[s.strip() for s in re.split(r"\n\n+", all_content) if s.strip()]\<close>; the sections
  are numbered by \<^verbatim>\<open>enumerate\<close>, and the comprehension keeps those longer than 20
  characters.
\<close>

definition sections :: "string \<Rightarrow> string list" where
  "sections all_content = filter (\<lambda>s. s \<noteq> []) (map strip (split_blank all_content))"

definition fallback_questions :: "string \<Rightarrow> string list" where
  "fallback_questions all_content =
     map (\<lambda>(i, section). render_question (int i + 1) section)
       (filter (\<lambda>(i, section). 20 < length section)
          (List.enumerate 0 (sections all_content)))"

text \<open>A document is represented by its \<^verbatim>\<open>page_content\<close>.\<close>

definition extract_questions :: "string list \<Rightarrow> string list" where
  "extract_questions documents =
     (let all_content = join_lines documents;
          qs = numbered_questions all_content
      in if qs \<noteq> [] then qs else fallback_questions all_content)"

section \<open>Matching utterances\<close>

text \<open>
  \<^verbatim>\<open>\w\<close> on code points below 256: ASCII letters, digits and the underscore, and
  the Latin-1 code points for which \<^verbatim>\<open>str.isalnum\<close> holds (170, 178, 179, 181,
  185, 186, 188-190, 192-214, 216-246, 248-255).
\<close>

definition is_word :: "char \<Rightarrow> bool" where
  "is_word c =
     (let n = (of_char c :: nat)
      in (48 \<le> n \<and> n \<le> 57) \<or> (65 \<le> n \<and> n \<le> 90) \<or> n = 95 \<or> (97 \<le> n \<and> n \<le> 122)
         \<or> n = 170 \<or> n = 178 \<or> n = 179 \<or> n = 181 \<or> n = 185 \<or> n = 186
         \<or> (188 \<le> n \<and> n \<le> 190) \<or> (192 \<le> n \<and> n \<le> 214)
         \<or> (216 \<le> n \<and> n \<le> 246) \<or> (248 \<le> n \<and> n \<le> 255))"

definition is_ascii_letter :: "char \<Rightarrow> bool" where
  "is_ascii_letter c =
     (let n = (of_char c :: nat) in (65 \<le> n \<and> n \<le> 90) \<or> (97 \<le> n \<and> n \<le> 122))"

definition is_ascii_upper :: "char \<Rightarrow> bool" where
  "is_ascii_upper c = (let n = (of_char c :: nat) in 65 \<le> n \<and> n \<le> 90)"

text \<open>
  \<^verbatim>\<open>str.lower\<close> on one code point below 256: the ASCII capitals and the Latin-1
  capitals 192-214 and 216-222 move up by 32.
\<close>

definition lower_char :: "char \<Rightarrow> char" where
  "lower_char c =
     (let n = (of_char c :: nat)
      in if (65 \<le> n \<and> n \<le> 90) \<or> (192 \<le> n \<and> n \<le> 214) \<or> (216 \<le> n \<and> n \<le> 222)
         then char_of (n + 32) else c)"

definition py_lower :: "string \<Rightarrow> string" where
  "py_lower s = map lower_char s"

text \<open>
  \<^verbatim>\<open>str.upper\<close>: the ASCII small letters and the Latin-1 small letters 224-246 and
  248-254 move down by 32, and 223 (sharp s) becomes \<^verbatim>\<open>SS\<close>. The capitals of 181
  and 255 lie above 255; they are word characters that are neither letters A-Z nor
  digits, as 181 and 255 are, and the model leaves the two code points in place.
\<close>

definition upper_char :: "char \<Rightarrow> string" where
  "upper_char c =
     (let n = (of_char c :: nat)
      in if (97 \<le> n \<and> n \<le> 122) \<or> (224 \<le> n \<and> n \<le> 246) \<or> (248 \<le> n \<and> n \<le> 254)
         then [char_of (n - 32)]
         else if n = 223 then ''SS'' else [c])"

definition py_upper :: "string \<Rightarrow> string" where
  "py_upper s = concat (map upper_char s)"

text \<open>
  A literal of small ASCII letters and punctuation matched under
  \<^verbatim>\<open>re.IGNORECASE\<close>: a code point below 256 matches a pattern letter when it is
  that letter or its ASCII capital.
\<close>

definition ascii_lower :: "char \<Rightarrow> char" where
  "ascii_lower c =
     (let n = (of_char c :: nat) in if 65 \<le> n \<and> n \<le> 90 then char_of (n + 32) else c)"

fun strip_prefix_ci :: "string \<Rightarrow> string \<Rightarrow> string option" where
  "strip_prefix_ci [] s = Some s"
| "strip_prefix_ci (p # ps) [] = None"
| "strip_prefix_ci (p # ps) (c # cs) =
     (if p = ascii_lower c then strip_prefix_ci ps cs else None)"

text \<open>
  \<^verbatim>\<open>re.search\<close> tries the pattern at every position from the left. \<open>search_bool\<close>
  says whether the pattern \<open>P\<close> matches at some position; \<open>P\<close> receives whether
  the character before the position is a word character (for \<^verbatim>\<open>\b\<close>) and the text
  from the position on. \<open>search_first\<close> returns the result of the leftmost match.
\<close>

fun search_bool :: "(bool \<Rightarrow> string \<Rightarrow> bool) \<Rightarrow> bool \<Rightarrow> string \<Rightarrow> bool" where
  "search_bool P prev_word [] = P prev_word []"
| "search_bool P prev_word (c # cs) =
     (P prev_word (c # cs) \<or> search_bool P (is_word c) cs)"

fun search_first :: "(bool \<Rightarrow> string \<Rightarrow> 'a option) \<Rightarrow> bool \<Rightarrow> string \<Rightarrow> 'a option" where
  "search_first P prev_word [] = P prev_word []"
| "search_first P prev_word (c # cs) =
     (case P prev_word (c # cs) of
        Some x \<Rightarrow> Some x
      | None \<Rightarrow> search_first P (is_word c) cs)"

text \<open>
  \<^verbatim>\<open>\b(w1|w2|...)\b\<close> at a position, for words that start and end with a word
  character: the character before is no word character, one of the words follows,
  and the character after it is no word character.
\<close>

definition word_at :: "string list \<Rightarrow> bool \<Rightarrow> string \<Rightarrow> bool" where
  "word_at ws prev_word s =
     (\<not> prev_word \<and>
      list_ex (\<lambda>w. case strip_prefix w s of
                      None \<Rightarrow> False
                    | Some r \<Rightarrow> (case r of [] \<Rightarrow> True | d # _ \<Rightarrow> \<not> is_word d)) ws)"

definition has_word :: "string list \<Rightarrow> string \<Rightarrow> bool" where
  "has_word ws s = search_bool (word_at ws) False s"

text \<open>
  \<^verbatim>\<open>re.search(r'question\s*(\d+)', text)\<close> followed by \<^verbatim>\<open>int(group(1))\<close>: the
  digits after the leftmost \<^verbatim>\<open>question\<close> that is followed, after optional white
  space, by a digit.
\<close>

definition question_at :: "bool \<Rightarrow> string \<Rightarrow> int option" where
  "question_at prev_word s =
     (case strip_prefix ''question'' s of
        None \<Rightarrow> None
      | Some r \<Rightarrow>
          (let ds = takeWhile is_digit (dropWhile is_space r)
           in if ds = [] then None else Some (py_int ds)))"

definition question_number :: "string \<Rightarrow> int option" where
  "question_number s = search_first question_at False s"

text \<open>
  A greedy \<^verbatim>\<open>\s*\<close> followed by the rest \<open>k\<close> of a pattern: the longest run of
  white space is tried first, then shorter ones.
\<close>

fun greedy_space :: "(string \<Rightarrow> 'a option) \<Rightarrow> string \<Rightarrow> 'a option" where
  "greedy_space k [] = k []"
| "greedy_space k (c # cs) =
     (if is_space c then
        (case greedy_space k cs of Some x \<Rightarrow> Some x | None \<Rightarrow> k (c # cs))
      else k (c # cs))"

text \<open>\<^verbatim>\<open>(.+)\<close> at the end of a pattern: the longest run without a newline, not empty.\<close>

definition dot_plus :: "string \<Rightarrow> string option" where
  "dot_plus s =
     (let g = takeWhile (\<lambda>c. c \<noteq> newline) s in if g = [] then None else Some g)"

text \<open>
  \<^verbatim>\<open>(?:answer is|my answer|i think it\'s|solution:)\s*(.+)\<close> under
  \<^verbatim>\<open>re.IGNORECASE\<close>; the result is group 1.
\<close>

fun first_some :: "('a \<Rightarrow> 'b option) \<Rightarrow> 'a list \<Rightarrow> 'b option" where
  "first_some f [] = None"
| "first_some f (x # xs) = (case f x of Some y \<Rightarrow> Some y | None \<Rightarrow> first_some f xs)"

definition answer_at :: "bool \<Rightarrow> string \<Rightarrow> string option" where
  "answer_at prev_word s =
     first_some
       (\<lambda>w. case strip_prefix_ci w s of
               None \<Rightarrow> None
             | Some r \<Rightarrow> greedy_space dot_plus r)
       [''answer is'', ''my answer'', ''i think it'' @ [CHR 0x27] @ ''s'', ''solution:'']"

section \<open>PastPaperProcessor: parsing the intent\<close>

record intent =
  wants_next :: bool
  wants_clarification :: bool
  has_answer :: bool
  wants_stop :: bool
  question_num :: "int option"
  answer_text :: "string option"

definition parse_user_intent :: "string \<Rightarrow> intent" where
  "parse_user_intent user_input =
     (let i0 = \<lparr>wants_next = False, wants_clarification = False, has_answer = False,
                wants_stop = False, question_num = None, answer_text = None\<rparr>;
          low = py_lower user_input;
          i1 = (if has_word [''next'', ''continue'', ''more'', ''yes'', ''proceed''] low
                then i0\<lparr>wants_next := True\<rparr> else i0);
          i2 = (if has_word [''clarify'', ''explain'', ''help'', ''confused'', ''understand''] low
                then (let i = i1\<lparr>wants_clarification := True\<rparr> in
                      case question_number low of
                        None \<Rightarrow> i
                      | Some n \<Rightarrow> i\<lparr>question_num := Some n\<rparr>)
                else i1);
          i3 = (if has_word [''answer'', ''my answer'', ''i think'', ''solution''] low
                then (let i = i2\<lparr>has_answer := True\<rparr>;
                          j = (case question_number low of
                                 None \<Rightarrow> i
                               | Some n \<Rightarrow> i\<lparr>question_num := Some n\<rparr>) in
                      case search_first answer_at False user_input of
                        None \<Rightarrow> j
                      | Some g \<Rightarrow> j\<lparr>answer_text := Some (strip g)\<rparr>)
                else i2)
      in if has_word [''stop'', ''quit'', ''exit'', ''done'', ''finish''] low
         then i3\<lparr>wants_stop := True\<rparr> else i3)"

section \<open>EnhancedPastPaperChain: recognising a request for a paper\<close>

text \<open>
  \<^verbatim>\<open>.*\<close> followed by the rest \<open>k\<close> of a pattern, as a yes/no question: the
  rest matches after some run of characters other than newline.
\<close>

fun dot_star :: "(string \<Rightarrow> bool) \<Rightarrow> string \<Rightarrow> bool" where
  "dot_star k [] = k []"
| "dot_star k (c # cs) = (k (c # cs) \<or> (c \<noteq> newline \<and> dot_star k cs))"

definition literal_ci :: "string list \<Rightarrow> string \<Rightarrow> bool" where
  "literal_ci ws s = list_ex (\<lambda>w. strip_prefix_ci w s \<noteq> None) ws"

text \<open>\<^verbatim>\<open>\d{n}\<close>: exactly \<open>n\<close> digits; the result is the text after them.\<close>

fun digits :: "nat \<Rightarrow> string \<Rightarrow> string option" where
  "digits 0 s = Some s"
| "digits (Suc n) [] = None"
| "digits (Suc n) (c # cs) = (if is_digit c then digits n cs else None)"

text \<open>\<^verbatim>\<open>[A-Z]{3}\<close> under \<^verbatim>\<open>re.IGNORECASE\<close>: three ASCII letters of either case.\<close>

definition letters3_ci :: "string \<Rightarrow> string option" where
  "letters3_ci s =
     (case s of
        a # b # c # r \<Rightarrow>
          if is_ascii_letter a \<and> is_ascii_letter b \<and> is_ascii_letter c then Some r else None
      | _ \<Rightarrow> None)"

text \<open>
  The three patterns of \<^verbatim>\<open>_is_new_paper_request\<close>, each at one position:
  \<^item> \<^verbatim>\<open>(start|begin|go through|work through|practice).*(past paper|exam|test)\<close>
  \<^item> \<^verbatim>\<open>(CSC|MAT|PHY|[A-Z]{3})\d{3}.*\d{4}\<close>
  \<^item> \<^verbatim>\<open>\d{4}.*(past paper|exam)\<close>
\<close>

definition start_phrase_at :: "bool \<Rightarrow> string \<Rightarrow> bool" where
  "start_phrase_at prev_word s =
     list_ex
       (\<lambda>w. case strip_prefix_ci w s of
               None \<Rightarrow> False
             | Some r \<Rightarrow> dot_star (literal_ci [''past paper'', ''exam'', ''test'']) r)
       [''start'', ''begin'', ''go through'', ''work through'', ''practice'']"

definition unit_year_at :: "bool \<Rightarrow> string \<Rightarrow> bool" where
  "unit_year_at prev_word s =
     list_ex
       (\<lambda>m. case m s of
               None \<Rightarrow> False
             | Some r \<Rightarrow>
                 (case digits 3 r of
                    None \<Rightarrow> False
                  | Some r' \<Rightarrow> dot_star (\<lambda>t. digits 4 t \<noteq> None) r'))
       [strip_prefix_ci ''csc'', strip_prefix_ci ''mat'', strip_prefix_ci ''phy'', letters3_ci]"

definition year_phrase_at :: "bool \<Rightarrow> string \<Rightarrow> bool" where
  "year_phrase_at prev_word s =
     (case digits 4 s of
        None \<Rightarrow> False
      | Some r \<Rightarrow> dot_star (literal_ci [''past paper'', ''exam'']) r)"

definition is_new_paper_request :: "string \<Rightarrow> bool" where
  "is_new_paper_request user_input =
     list_ex (\<lambda>pattern. search_bool pattern False user_input)
       [start_phrase_at, unit_year_at, year_phrase_at]"

text \<open>
  \<^verbatim>\<open>_extract_paper_details\<close>: \<^verbatim>\<open>\b([A-Z]{3}\d{3})\b\<close> searched in
  \<^verbatim>\<open>user_input.upper()\<close> and \<^verbatim>\<open>\b(20[0-3]\d)\b\<close> searched in the input.
\<close>

definition unit_code_at :: "bool \<Rightarrow> string \<Rightarrow> string option" where
  "unit_code_at prev_word s =
     (case s of
        a # b # c # r \<Rightarrow>
          if \<not> prev_word \<and> is_ascii_upper a \<and> is_ascii_upper b \<and> is_ascii_upper c then
            (case digits 3 r of
               None \<Rightarrow> None
             | Some r' \<Rightarrow>
                 if (case r' of [] \<Rightarrow> True | d # _ \<Rightarrow> \<not> is_word d)
                 then Some (take 6 s) else None)
          else None
      | _ \<Rightarrow> None)"

definition year_at :: "bool \<Rightarrow> string \<Rightarrow> string option" where
  "year_at prev_word s =
     (case strip_prefix ''20'' s of
        None \<Rightarrow> None
      | Some r \<Rightarrow>
          (case r of
             a # b # r' \<Rightarrow>
               if \<not> prev_word
                  \<and> (a = CHR ''0'' \<or> a = CHR ''1'' \<or> a = CHR ''2'' \<or> a = CHR ''3'')
                  \<and> is_digit b
                  \<and> (case r' of [] \<Rightarrow> True | d # _ \<Rightarrow> \<not> is_word d)
               then Some (take 4 s) else None
           | _ \<Rightarrow> None))"

definition extract_paper_details :: "string \<Rightarrow> string option \<times> string option" where
  "extract_paper_details user_input =
     (search_first unit_code_at False (py_upper user_input),
      search_first year_at False user_input)"

section \<open>EnhancedPastPaperChain: the external services\<close>

text \<open>
  The chain holds a language model and a vector store. A call of the language model
  is \<^verbatim>\<open>chain.invoke\<close> on one of the two prompt templates with its variables; the
  result is the generated text, or the exception the call raises. The answer may
  depend on the calls made before, which the chain state records in \<open>llm_calls\<close>.
  A retrieval is \<^verbatim>\<open>get_relevant_documents(user_input)\<close> on a retriever built with
  a filter; the result is the \<^verbatim>\<open>page_content\<close> of the documents found.
\<close>

datatype llm_request =
    ClarifyPrompt string
  | GradePrompt string string

datatype cond =
    SourceTypeEq string
  | UnitCodeEq string
  | YearEq string

datatype search_filter =
    FilterAnd "cond list"
  | FilterEmpty

record services =
  llm :: "llm_request list \<Rightarrow> llm_request \<Rightarrow> py_error + string"
  retrieve :: "search_filter \<Rightarrow> string \<Rightarrow> py_error + string list"

record chain =
  sessions :: "string \<rightharpoonup> session"
  llm_calls :: "llm_request list"

fun is_unit_cond :: "cond \<Rightarrow> bool" where
  "is_unit_cond (UnitCodeEq u) = True"
| "is_unit_cond c = False"

definition or_default :: "string option \<Rightarrow> string \<Rightarrow> string" where
  "or_default x d = (case x of None \<Rightarrow> d | Some v \<Rightarrow> v)"

section \<open>EnhancedPastPaperChain: the handlers\<close>

text \<open>
  Each handler returns the message or the exception that leaves it, together with the
  session as the handler has mutated it by then.
\<close>

definition start_new_paper ::
  "services \<Rightarrow> string \<Rightarrow> session \<Rightarrow> (py_error + response) \<times> session" where
  "start_new_paper sv user_input s =
     (let (uc, yr) = extract_paper_details user_input;
          base_conditions =
            [SourceTypeEq ''PastPaper'']
            @ (case uc of None \<Rightarrow> [] | Some u \<Rightarrow> [UnitCodeEq u])
            @ (case yr of None \<Rightarrow> [] | Some y \<Rightarrow> [YearEq y])
      in case retrieve sv (FilterAnd base_conditions) user_input of
           Inl e \<Rightarrow> (Inl e, s)
         | Inr docs \<Rightarrow>
             (case (if docs = [] \<and> uc \<noteq> None then
                      (let relaxed_conditions =
                             filter (\<lambda>c. \<not> is_unit_cond c) base_conditions;
                           relaxed_filter =
                             (if relaxed_conditions \<noteq> [] then FilterAnd relaxed_conditions
                              else FilterEmpty)
                       in retrieve sv relaxed_filter user_input)
                    else Inr docs) of
                Inl e \<Rightarrow> (Inl e, s)
              | Inr docs' \<Rightarrow>
                  if docs' = [] then (Inr (NotFound uc yr), s)
                  else
                    (let qs = extract_questions docs' in
                     if qs = [] then (Inr NoQuestions, s)
                     else
                       (let s1 = start_paper s (or_default uc ''Unknown'')
                                   (or_default yr ''Unknown'') qs;
                            ((batch, has_more), s2) = get_next_batch s1 5
                        in (Inr (Starting (unit_code s2) (year s2) (total_questions s2)
                                   batch has_more), s2)))))"

text \<open>
  \<^verbatim>\<open>_provide_clarification\<close>. \<^verbatim>\<open>not q_num\<close> holds for \<^verbatim>\<open>None\<close> and for 0.
\<close>

definition provide_clarification ::
  "services \<Rightarrow> intent \<Rightarrow> session \<Rightarrow> llm_request list
     \<Rightarrow> (py_error + response) \<times> session \<times> llm_request list" where
  "provide_clarification sv i s calls =
     (if \<not> is_active s then (Inr NoSessionFirst, s, calls)
      else
        (case question_num i of
           None \<Rightarrow> (Inr InvalidQuestionNumber, s, calls)
         | Some q_num \<Rightarrow>
             if q_num = 0 \<or> q_num > int (length (questions s))
             then (Inr InvalidQuestionNumber, s, calls)
             else
               (case py_index (questions s) (q_num - 1) of
                  Inl e \<Rightarrow> (Inl e, s, calls)
                | Inr question \<Rightarrow>
                    (case llm sv calls (ClarifyPrompt question) of
                       Inl e \<Rightarrow> (Inl e, s, calls @ [ClarifyPrompt question])
                     | Inr clarification \<Rightarrow>
                         (Inr (Clarification q_num clarification), s,
                          calls @ [ClarifyPrompt question])))))"

text \<open>
  \<^verbatim>\<open>_process_answer\<close>. \<^verbatim>\<open>not answer\<close> holds for \<^verbatim>\<open>None\<close> and for the empty
  string. The answer is saved before the question is looked up.
\<close>

definition process_answer ::
  "services \<Rightarrow> intent \<Rightarrow> session \<Rightarrow> llm_request list
     \<Rightarrow> (py_error + response) \<times> session \<times> llm_request list" where
  "process_answer sv i s calls =
     (if \<not> is_active s then (Inr NoSessionFirst, s, calls)
      else
        (case (question_num i, answer_text i) of
           (None, _) \<Rightarrow> (Inr NeedNumberAndAnswer, s, calls)
         | (Some q_num, None) \<Rightarrow> (Inr NeedNumberAndAnswer, s, calls)
         | (Some q_num, Some answer) \<Rightarrow>
             if q_num = 0 \<or> answer = [] then (Inr NeedNumberAndAnswer, s, calls)
             else
               (let s1 = save_answer s q_num answer in
                case py_index (questions s1) (q_num - 1) of
                  Inl e \<Rightarrow> (Inl e, s1, calls)
                | Inr question_text \<Rightarrow>
                    (case llm sv calls (GradePrompt question_text answer) of
                       Inl e \<Rightarrow> (Inl e, s1, calls @ [GradePrompt question_text answer])
                     | Inr feedback \<Rightarrow>
                         (Inr (Feedback q_num answer feedback), s1,
                          calls @ [GradePrompt question_text answer])))))"

text \<open>
  \<^verbatim>\<open>get_or_create_session\<close> stores a new session under an unknown id and returns
  the session object of the id.
\<close>

definition get_or_create_session :: "chain \<Rightarrow> string \<Rightarrow> session \<times> chain" where
  "get_or_create_session c session_id =
     (case sessions c session_id of
        None \<Rightarrow> (new_session, c\<lparr>sessions := (sessions c)(session_id \<mapsto> new_session)\<rparr>)
      | Some s \<Rightarrow> (s, c))"

text \<open>
  \<^verbatim>\<open>handle_past_paper_request\<close>. The handlers mutate the session object that the
  registry holds under \<open>session_id\<close>; the model stores the mutated session back
  under that id.
\<close>

definition handle_past_paper_request ::
  "services \<Rightarrow> string \<Rightarrow> string \<Rightarrow> chain \<Rightarrow> (py_error + response) \<times> chain" where
  "handle_past_paper_request sv user_input session_id c0 =
     (let (s, c) = get_or_create_session c0 session_id in
      if \<not> is_active s \<or> is_new_paper_request user_input then
        (let (r, s') = start_new_paper sv user_input s
         in (r, c\<lparr>sessions := (sessions c)(session_id \<mapsto> s')\<rparr>))
      else
        (let i = parse_user_intent user_input in
         if wants_stop i then
           (Inr Stopped, c\<lparr>sessions := (sessions c)(session_id \<mapsto> reset s)\<rparr>)
         else if wants_next i then
           (let (r, s') = show_next_batch s
            in (Inr r, c\<lparr>sessions := (sessions c)(session_id \<mapsto> s')\<rparr>))
         else if wants_clarification i then
           (let (r, s', calls) = provide_clarification sv i s (llm_calls c)
            in (r, c\<lparr>sessions := (sessions c)(session_id \<mapsto> s'), llm_calls := calls\<rparr>))
         else if has_answer i then
           (let (r, s', calls) = process_answer sv i s (llm_calls c)
            in (r, c\<lparr>sessions := (sessions c)(session_id \<mapsto> s'), llm_calls := calls\<rparr>))
         else
           (let (r, s') = show_next_batch s
            in (Inr r, c\<lparr>sessions := (sessions c)(session_id \<mapsto> s')\<rparr>))))"

section \<open>Reachable sessions and example runs\<close>

text \<open>
  The states a session object reaches through the operations the handlers apply to
  it: \<^verbatim>\<open>start_paper\<close>, the first \<^verbatim>\<open>get_next_batch()\<close> that \<^verbatim>\<open>_start_new_paper\<close>
  makes right after \<^verbatim>\<open>start_paper\<close> on a non-empty list, \<^verbatim>\<open>_show_next_batch\<close>,
  \<^verbatim>\<open>save_answer\<close> and \<^verbatim>\<open>reset\<close>.
\<close>

inductive session_reachable :: "session \<Rightarrow> bool" where
  init: "session_reachable new_session"
| start: "session_reachable s \<Longrightarrow> session_reachable (start_paper s uc yr qs)"
| first_batch:
    "session_reachable s \<Longrightarrow> qs \<noteq> []
       \<Longrightarrow> session_reachable (snd (get_next_batch (start_paper s uc yr qs) 5))"
| next_batch: "session_reachable s \<Longrightarrow> session_reachable (snd (show_next_batch s))"
| answer: "session_reachable s \<Longrightarrow> session_reachable (save_answer s n a)"
| stop: "session_reachable s \<Longrightarrow> session_reachable (reset s)"

definition cursor_ok :: "session \<Rightarrow> bool" where
  "cursor_ok s \<longleftrightarrow>
     session_wf s \<and>
     (current_batch s = 0 \<or> (current_batch s - 1) * 5 < int (length (questions s)))"

text \<open>
  Services for example runs: a language model that gives the same result to every
  call, and a vector store that returns the same documents for every query.
\<close>

definition fixed_services :: "(py_error + string) \<Rightarrow> string list \<Rightarrow> services" where
  "fixed_services generated docs =
     \<lparr>llm = (\<lambda>calls request. generated), retrieve = (\<lambda>f query. Inr docs)\<rparr>"

definition empty_chain :: chain where
  "empty_chain = \<lparr>sessions = Map.empty, llm_calls = []\<rparr>"

definition two_question_paper :: "string list" where
  "two_question_paper =
     [''Question 1: What is a firewall?\<newline>Question 2: What is NAT used for?'']"

text \<open>The chain after the request that starts the paper under the session id \<^verbatim>\<open>api\<close>.\<close>

definition started :: "services \<Rightarrow> chain" where
  "started sv =
     snd (handle_past_paper_request sv ''go through CSC231 2024 past paper'' ''api''
            empty_chain)"

text \<open>
  The session that this request leaves under \<^verbatim>\<open>api\<close> when the vector store
  returns \<^const>\<open>two_question_paper\<close>: both questions have been shown.
\<close>

definition first_batch_shown :: session where
  "first_batch_shown =
     \<lparr>unit_code = Some ''CSC231'', year = Some ''2024'', current_batch = 1,
      questions = [''Question 1: What is a firewall?'', ''Question 2: What is NAT used for?''],
      user_answers = Map.empty, model_answers = Map.empty,
      is_active = True, total_questions = 2\<rparr>"

section \<open>Batching\<close>

lemma py_slice_batch:
  assumes "0 \<le> k" and "0 < b"
  shows "py_slice xs k (min (k + b) (int (length xs))) = take (nat b) (drop (nat k) xs)"
proof -
  obtain m where m: "k = int m" using assms(1) by (metis nat_0_le)
  obtain d where d: "b = int d" and dpos: "0 < d" using assms(2)
    by (metis nat_0_le less_le of_nat_0_less_iff zless_nat_conj zero_less_nat_eq)
  show ?thesis
  proof (cases "m \<le> length xs")
    case True
    have "py_slice xs k (min (k + b) (int (length xs)))
        = take (min (m + d) (length xs) - m) (drop m xs)"
      using True by (simp add: py_slice_def Let_def m d min_def nat_diff_distrib nat_int_add)
    also have "\<dots> = take d (drop m xs)"
      using True by (cases "m + d \<le> length xs") (simp_all add: min_def)
    finally show ?thesis by (simp add: m d)
  next
    case False
    then show ?thesis
      by (simp add: py_slice_def Let_def m d min_def)
  qed
qed

lemma get_next_batch_eq:
  assumes "session_wf s" and "0 < b"
  shows "get_next_batch s b =
           ((take (nat b) (drop (nat (current_batch s * b)) (questions s)),
             current_batch s * b + b < int (length (questions s))),
            s\<lparr>current_batch := current_batch s + 1\<rparr>)"
proof -
  from assms have c: "0 \<le> current_batch s * b"
    and q: "total_questions s = int (length (questions s))"
    by (simp_all add: session_wf_def)
  show ?thesis
    using py_slice_batch [OF c assms(2), of "questions s"] q
    by (simp add: get_next_batch_def Let_def min_def)
qed

lemma batch_empty_iff:
  assumes "0 \<le> k" and "0 < b"
  shows "take (nat b) (drop (nat k) qs) = [] \<longleftrightarrow> int (length qs) \<le> k"
  using assms by auto

lemma show_next_batch_eq:
  assumes "session_wf s"
  shows "show_next_batch s =
     (if \<not> is_active s then (NoSessionNext, s)
      else if int (length (questions s)) \<le> current_batch s * 5 then (Completed, new_session)
      else (Continuing (unit_code s) (year s)
              (min (current_batch s * 5 + 5) (int (length (questions s))),
               int (length (questions s)))
              (current_batch s * 5 + 1)
              (take 5 (drop (nat (current_batch s * 5)) (questions s)))
              (current_batch s * 5 + 5 < int (length (questions s))),
            s\<lparr>current_batch := current_batch s + 1\<rparr>))"
proof -
  from assms have c: "0 \<le> current_batch s * 5"
    and q: "total_questions s = int (length (questions s))"
    by (simp_all add: session_wf_def)
  have e: "take 5 (drop (nat (current_batch s * 5)) (questions s)) = []
             \<longleftrightarrow> int (length (questions s)) \<le> current_batch s * 5"
    using batch_empty_iff [OF c, of 5 "questions s"] by simp
  show ?thesis
    using get_next_batch_eq [OF assms, of 5] e q
    by (simp add: show_next_batch_def reset_def get_current_progress_def algebra_simps)
qed

text \<open>
  Claim C1, as the code has it. For a well-formed session and a batch size \<open>b > 0\<close>,
  \<^verbatim>\<open>get_next_batch(b)\<close> always increments the cursor by one and returns the slice
  \<^verbatim>\<open>questions[cursor*b : min(cursor*b+b, q)]\<close> with
  \<^verbatim>\<open>has_more = (min(cursor*b+b, q) < q)\<close>; the batch is empty exactly when
  \<^verbatim>\<open>cursor*b >= q\<close>, and the method never resets the session. The reset belongs to
  the handler \<^verbatim>\<open>_show_next_batch\<close>, which uses the batch size 5: on an active
  session it resets the session to \<^const>\<open>new_session\<close> when \<^verbatim>\<open>cursor*5 >= q\<close> and
  otherwise leaves the cursor incremented by one and shows the slice; called again
  after the final non-empty batch it leaves the session reset.
\<close>

theorem next_batch_store_and_router:
  assumes "session_wf s" and "0 < b"
  shows "get_next_batch s b =
           ((take (nat b) (drop (nat (current_batch s * b)) (questions s)),
             current_batch s * b + b < int (length (questions s))),
            s\<lparr>current_batch := current_batch s + 1\<rparr>)
       \<and> (fst (fst (get_next_batch s b)) = []
            \<longleftrightarrow> int (length (questions s)) \<le> current_batch s * b)
       \<and> show_next_batch s =
           (if \<not> is_active s then (NoSessionNext, s)
            else if int (length (questions s)) \<le> current_batch s * 5
            then (Completed, new_session)
            else (Continuing (unit_code s) (year s)
                    (min (current_batch s * 5 + 5) (int (length (questions s))),
                     int (length (questions s)))
                    (current_batch s * 5 + 1)
                    (take 5 (drop (nat (current_batch s * 5)) (questions s)))
                    (current_batch s * 5 + 5 < int (length (questions s))),
                  s\<lparr>current_batch := current_batch s + 1\<rparr>))
       \<and> (is_active s \<and> current_batch s * 5 < int (length (questions s))
              \<and> int (length (questions s)) \<le> current_batch s * 5 + 5
            \<longrightarrow> show_next_batch (snd (show_next_batch s)) = (Completed, new_session))"
proof -
  from assms have c: "0 \<le> current_batch s * b" by (simp add: session_wf_def)
  have 1: "get_next_batch s b =
           ((take (nat b) (drop (nat (current_batch s * b)) (questions s)),
             current_batch s * b + b < int (length (questions s))),
            s\<lparr>current_batch := current_batch s + 1\<rparr>)"
    by (rule get_next_batch_eq [OF assms])
  have 2: "fst (fst (get_next_batch s b)) = []
            \<longleftrightarrow> int (length (questions s)) \<le> current_batch s * b"
    unfolding 1 using batch_empty_iff [OF c assms(2), of "questions s"] by simp
  note 3 = show_next_batch_eq [OF assms(1)]
  have 4: "show_next_batch (snd (show_next_batch s)) = (Completed, new_session)"
    if a: "is_active s" and lt: "current_batch s * 5 < int (length (questions s))"
      and le: "int (length (questions s)) \<le> current_batch s * 5 + 5"
  proof -
    let ?s1 = "s\<lparr>current_batch := current_batch s + 1\<rparr>"
    from a lt have s1: "snd (show_next_batch s) = ?s1" by (simp add: 3)
    from assms(1) have wf1: "session_wf ?s1" by (simp add: session_wf_def)
    have "show_next_batch ?s1 = (Completed, new_session)"
      using a le show_next_batch_eq [OF wf1] by (simp add: algebra_simps)
    then show ?thesis unfolding s1 .
  qed
  from 1 2 3 4 show ?thesis by blast
qed

theorem next_batch_store_and_router_witness:
  "session_wf (start_paper new_session ''CSC231'' ''2024'' [''Q1'', ''Q2'', ''Q3''])
   \<and> (0::int) < 2
   \<and> get_next_batch (start_paper new_session ''CSC231'' ''2024'' [''Q1'', ''Q2'', ''Q3'']) 2
       = (([''Q1'', ''Q2''], True),
          (start_paper new_session ''CSC231'' ''2024'' [''Q1'', ''Q2'', ''Q3''])
            \<lparr>current_batch := 1\<rparr>)
   \<and> show_next_batch (start_paper new_session ''CSC231'' ''2024'' [''Q1'', ''Q2'', ''Q3''])
       = (Continuing (Some ''CSC231'') (Some ''2024'') (3, 3) 1 [''Q1'', ''Q2'', ''Q3''] False,
          (start_paper new_session ''CSC231'' ''2024'' [''Q1'', ''Q2'', ''Q3''])
            \<lparr>current_batch := 1\<rparr>)
   \<and> show_next_batch (snd (show_next_batch
         (start_paper new_session ''CSC231'' ''2024'' [''Q1'', ''Q2'', ''Q3''])))
       = (Completed, new_session)"
proof -
  let ?s = "start_paper new_session ''CSC231'' ''2024'' [''Q1'', ''Q2'', ''Q3'']"
  have wf: "session_wf ?s"
    by (simp add: session_wf_def start_paper_def)
  have b: "(0::int) < 2" by simp
  note t = next_batch_store_and_router [OF wf b]
  have g: "get_next_batch ?s 2 = (([''Q1'', ''Q2''], True), ?s\<lparr>current_batch := 1\<rparr>)"
    using t by (simp add: start_paper_def)
  have sh: "show_next_batch ?s
       = (Continuing (Some ''CSC231'') (Some ''2024'') (3, 3) 1 [''Q1'', ''Q2'', ''Q3''] False,
          ?s\<lparr>current_batch := 1\<rparr>)"
    using t by (simp add: start_paper_def)
  have "is_active ?s \<and> current_batch ?s * 5 < int (length (questions ?s))
          \<and> int (length (questions ?s)) \<le> current_batch ?s * 5 + 5"
    by (simp add: start_paper_def)
  with t have again: "show_next_batch (snd (show_next_batch ?s)) = (Completed, new_session)"
    by blast
  from wf b g sh again show ?thesis by blast
qed

text \<open>
  Claim C1 as stated fails for \<^verbatim>\<open>get_next_batch\<close>: on a two-question session whose
  only batch has been delivered (\<^verbatim>\<open>cursor*5 >= q\<close>), the next call returns the empty
  batch but leaves the session active with the cursor at 2.
\<close>

theorem next_batch_never_resets_counterexample:
  "current_batch (snd (get_next_batch
       (start_paper new_session ''CSC231'' ''2024'' [''Q1'', ''Q2'']) 5)) * 5
     \<ge> int (length [''Q1'', ''Q2''])
   \<and> fst (get_next_batch (snd (get_next_batch
       (start_paper new_session ''CSC231'' ''2024'' [''Q1'', ''Q2'']) 5)) 5) = ([], False)
   \<and> is_active (snd (get_next_batch (snd (get_next_batch
       (start_paper new_session ''CSC231'' ''2024'' [''Q1'', ''Q2'']) 5)) 5))
   \<and> current_batch (snd (get_next_batch (snd (get_next_batch
       (start_paper new_session ''CSC231'' ''2024'' [''Q1'', ''Q2'']) 5)) 5)) = 2
   \<and> snd (get_next_batch (snd (get_next_batch
       (start_paper new_session ''CSC231'' ''2024'' [''Q1'', ''Q2'']) 5)) 5) \<noteq> new_session"
  by (simp add: get_next_batch_def start_paper_def new_session_def py_slice_def Let_def)

section \<open>Starting a paper\<close>

text \<open>
  Claim C7, as the code has it. \<^verbatim>\<open>start_paper\<close> accepts every list of questions,
  the empty one too: it sets the cursor to 0, clears both maps, sets the session
  active and signals nothing. The check for an empty list is made by its caller
  \<^verbatim>\<open>_start_new_paper\<close>: when the retrieved documents yield no question it returns
  the format-mismatch message and leaves the session untouched; otherwise it calls
  \<^verbatim>\<open>start_paper\<close> and delivers the first batch of 5.
\<close>

theorem start_paper_any_list_and_router_guard:
  "start_paper s uc yr qs =
     \<lparr>unit_code = Some uc, year = Some yr, current_batch = 0, questions = qs,
      user_answers = Map.empty, model_answers = Map.empty, is_active = True,
      total_questions = int (length qs)\<rparr>
   \<and> ((\<forall>f. retrieve sv f u = Inr docs) \<and> docs \<noteq> [] \<longrightarrow>
        start_new_paper sv u s0 =
          (if extract_questions docs = [] then (Inr NoQuestions, s0)
           else (Inr (Starting
                        (Some (or_default (fst (extract_paper_details u)) ''Unknown''))
                        (Some (or_default (snd (extract_paper_details u)) ''Unknown''))
                        (int (length (extract_questions docs)))
                        (take 5 (extract_questions docs))
                        (5 < int (length (extract_questions docs)))),
                 (start_paper s0
                    (or_default (fst (extract_paper_details u)) ''Unknown'')
                    (or_default (snd (extract_paper_details u)) ''Unknown'')
                    (extract_questions docs))\<lparr>current_batch := 1\<rparr>)))"
proof -
  have 1: "start_paper s uc yr qs =
     \<lparr>unit_code = Some uc, year = Some yr, current_batch = 0, questions = qs,
      user_answers = Map.empty, model_answers = Map.empty, is_active = True,
      total_questions = int (length qs)\<rparr>"
    by (simp add: start_paper_def)
  have 2: "start_new_paper sv u s0 =
          (if extract_questions docs = [] then (Inr NoQuestions, s0)
           else (Inr (Starting
                        (Some (or_default (fst (extract_paper_details u)) ''Unknown''))
                        (Some (or_default (snd (extract_paper_details u)) ''Unknown''))
                        (int (length (extract_questions docs)))
                        (take 5 (extract_questions docs))
                        (5 < int (length (extract_questions docs)))),
                 (start_paper s0
                    (or_default (fst (extract_paper_details u)) ''Unknown'')
                    (or_default (snd (extract_paper_details u)) ''Unknown'')
                    (extract_questions docs))\<lparr>current_batch := 1\<rparr>))"
    if r: "\<forall>f. retrieve sv f u = Inr docs" and d: "docs \<noteq> []"
  proof -
    let ?s1 = "start_paper s0
                    (or_default (fst (extract_paper_details u)) ''Unknown'')
                    (or_default (snd (extract_paper_details u)) ''Unknown'')
                    (extract_questions docs)"
    have wf: "session_wf ?s1" by (simp add: session_wf_def start_paper_def)
    have g: "get_next_batch ?s1 5 =
        ((take 5 (extract_questions docs), 5 < int (length (extract_questions docs))),
         ?s1\<lparr>current_batch := 1\<rparr>)"
      using get_next_batch_eq [OF wf, of 5] by (simp add: start_paper_def)
    show ?thesis
      using r d g
      by (simp add: start_new_paper_def Let_def split_beta start_paper_def)
  qed
  from 1 2 show ?thesis by blast
qed

theorem start_paper_any_list_and_router_guard_witness:
  "(\<forall>f. retrieve (fixed_services (Inr ''generated'') [''abc'']) f ''start exam''
           = Inr [''abc''])
   \<and> [''abc''] \<noteq> []
   \<and> extract_questions [''abc''] = []
   \<and> start_new_paper (fixed_services (Inr ''generated'') [''abc'']) ''start exam''
        new_session = (Inr NoQuestions, new_session)"
proof -
  have r: "\<forall>f. retrieve (fixed_services (Inr ''generated'') [''abc'']) f ''start exam''
             = Inr [''abc'']"
    by (simp add: fixed_services_def)
  have d: "[''abc''] \<noteq> []" by simp
  have e: "extract_questions [''abc''] = []" by code_simp
  from r d e
    start_paper_any_list_and_router_guard
      [of new_session "''U''" "''Y''" "[]" "fixed_services (Inr ''generated'') [''abc'']"
          "''start exam''" "[''abc'']" new_session]
  show ?thesis by simp
qed

text \<open>
  Claim C7 as stated fails for \<^verbatim>\<open>start_paper\<close>: called with the empty list it
  activates the session.
\<close>

theorem start_paper_empty_list_counterexample:
  "is_active (start_paper new_session ''CSC231'' ''2024'' [])
   \<and> total_questions (start_paper new_session ''CSC231'' ''2024'' []) = 0
   \<and> start_paper new_session ''CSC231'' ''2024'' [] \<noteq> new_session"
  by (simp add: start_paper_def new_session_def)

section \<open>The cursor bound\<close>

lemma cursor_ok_new: "cursor_ok new_session"
  by (simp add: cursor_ok_def session_wf_def new_session_def)

lemma cursor_ok_start: "cursor_ok (start_paper s uc yr qs)"
  by (simp add: cursor_ok_def session_wf_def start_paper_def)

lemma cursor_ok_first:
  "qs \<noteq> [] \<Longrightarrow> cursor_ok (snd (get_next_batch (start_paper s uc yr qs) 5))"
  by (simp add: cursor_ok_def session_wf_def start_paper_def get_next_batch_def Let_def)

lemma cursor_ok_next:
  assumes "cursor_ok s"
  shows "cursor_ok (snd (show_next_batch s))"
proof -
  from assms have wf: "session_wf s" by (simp add: cursor_ok_def)
  show ?thesis
    using assms cursor_ok_new
    by (auto simp: show_next_batch_eq [OF wf] cursor_ok_def session_wf_def)
qed

lemma cursor_ok_answer: "cursor_ok s \<Longrightarrow> cursor_ok (save_answer s n a)"
  by (simp add: cursor_ok_def session_wf_def save_answer_def)

lemma reachable_cursor_ok: "session_reachable s \<Longrightarrow> cursor_ok s"
  by (induction rule: session_reachable.induct)
     (simp_all add: cursor_ok_new cursor_ok_start cursor_ok_first cursor_ok_next
        cursor_ok_answer reset_def)

text \<open>
  Claim C8, as the code has it. With the batch size 5 that the handlers use, the
  bound \<^verbatim>\<open>0 <= cursor*5 <= len(questions) + 5\<close> holds in every state a session
  reaches through \<^verbatim>\<open>start_paper\<close>, the first batch of \<^verbatim>\<open>_start_new_paper\<close>,
  \<^verbatim>\<open>_show_next_batch\<close>, \<^verbatim>\<open>save_answer\<close> and \<^verbatim>\<open>reset\<close>, in any order:
  \<^verbatim>\<open>_show_next_batch\<close> resets the session when the list is exhausted.
\<close>

theorem cursor_bound_through_handler:
  assumes "session_reachable s"
  shows "0 \<le> current_batch s * 5
       \<and> current_batch s * 5 \<le> int (length (questions s)) + 5"
  using reachable_cursor_ok [OF assms]
  by (auto simp: cursor_ok_def session_wf_def)

theorem cursor_bound_through_handler_witness:
  "session_reachable (snd (show_next_batch (snd (get_next_batch
       (start_paper new_session ''CSC231'' ''2024'' [''Q1'', ''Q2'']) 5))))
   \<and> 0 \<le> current_batch (snd (show_next_batch (snd (get_next_batch
       (start_paper new_session ''CSC231'' ''2024'' [''Q1'', ''Q2'']) 5)))) * 5
   \<and> current_batch (snd (show_next_batch (snd (get_next_batch
       (start_paper new_session ''CSC231'' ''2024'' [''Q1'', ''Q2'']) 5)))) * 5
       \<le> int (length (questions (snd (show_next_batch (snd (get_next_batch
       (start_paper new_session ''CSC231'' ''2024'' [''Q1'', ''Q2'']) 5)))))) + 5"
proof -
  have r: "session_reachable (snd (show_next_batch (snd (get_next_batch
       (start_paper new_session ''CSC231'' ''2024'' [''Q1'', ''Q2'']) 5))))"
    by (intro session_reachable.next_batch session_reachable.first_batch
          session_reachable.init) simp
  from r cursor_bound_through_handler [OF r] show ?thesis by blast
qed

text \<open>
  Claim C8 as stated fails for \<^verbatim>\<open>get_next_batch\<close>: three calls on a two-question
  session leave the cursor at 3, and 15 exceeds 2 + 5.
\<close>

theorem repeated_get_next_batch_counterexample:
  "\<not> (current_batch (snd (get_next_batch (snd (get_next_batch (snd (get_next_batch
         (start_paper new_session ''CSC231'' ''2024'' [''Q1'', ''Q2'']) 5)) 5)) 5)) * 5
       \<le> int (length (questions (snd (get_next_batch (snd (get_next_batch
         (snd (get_next_batch
           (start_paper new_session ''CSC231'' ''2024'' [''Q1'', ''Q2'']) 5)) 5)) 5)))) + 5)"
  by (simp add: get_next_batch_def start_paper_def new_session_def Let_def)

text \<open>
  The handlers take a session only through these operations: when every session in
  the registry is reachable, so is every session in the registry after a request.
\<close>

lemma start_new_paper_reachable:
  assumes "session_reachable s"
  shows "session_reachable (snd (start_new_paper sv u s))"
  using assms
  by (auto simp: start_new_paper_def Let_def split_beta
           split: sum.splits option.splits if_splits
           intro: session_reachable.first_batch)

lemma provide_clarification_same_session:
  "fst (snd (provide_clarification sv i s calls)) = s"
  by (simp add: provide_clarification_def split: option.splits sum.splits)

lemma process_answer_reachable:
  assumes "session_reachable s"
  shows "session_reachable (fst (snd (process_answer sv i s calls)))"
  using assms
  by (auto simp: process_answer_def Let_def split: option.splits sum.splits
           intro: session_reachable.answer)

lemma handle_keeps_sessions_reachable:
  assumes "\<And>sid s. sessions c sid = Some s \<Longrightarrow> session_reachable s"
    and "sessions (snd (handle_past_paper_request sv u sid0 c)) sid = Some s"
  shows "session_reachable s"
proof -
  define s0 where "s0 = (case sessions c sid0 of None \<Rightarrow> new_session | Some x \<Rightarrow> x)"
  have r0: "session_reachable s0"
    unfolding s0_def using assms(1) session_reachable.init
    by (cases "sessions c sid0") auto
  show ?thesis
  proof (cases "sid = sid0")
    case False
    with assms(2) have "sessions c sid = Some s"
      by (auto simp: handle_past_paper_request_def get_or_create_session_def Let_def split_beta
               split: option.splits if_splits)
    then show ?thesis by (rule assms(1))
  next
    case True
    from r0 have cases:
      "session_reachable (snd (start_new_paper sv u s0))"
      "session_reachable (reset s0)"
      "session_reachable (snd (show_next_batch s0))"
      "session_reachable (fst (snd (provide_clarification sv (parse_user_intent u) s0 (llm_calls c))))"
      "session_reachable (fst (snd (process_answer sv (parse_user_intent u) s0 (llm_calls c))))"
      by (simp_all add: start_new_paper_reachable session_reachable.stop
            session_reachable.next_batch provide_clarification_same_session
            process_answer_reachable)
    from assms(2) True cases show ?thesis
      unfolding s0_def
      by (auto simp: handle_past_paper_request_def get_or_create_session_def Let_def split_beta
               split: option.splits if_splits)
  qed
qed

section \<open>Session isolation\<close>

text \<open>
  Claim C9. For distinct session ids \<open>s1\<close> and \<open>s2\<close>, a request under \<open>s1\<close>
  leaves the registry entry of \<open>s2\<close> as it was, and whatever is stored under
  \<open>s2\<close> (a session \<open>x\<close>, or nothing) has no influence on the response, on the
  session stored under \<open>s1\<close> or on the calls made to the language model.
\<close>

theorem handle_frame:
  assumes "s1 \<noteq> s2"
  shows "sessions (snd (handle_past_paper_request sv u s1 c)) s2 = sessions c s2
       \<and> fst (handle_past_paper_request sv u s1 (c\<lparr>sessions := (sessions c)(s2 := x)\<rparr>))
           = fst (handle_past_paper_request sv u s1 c)
       \<and> sessions (snd (handle_past_paper_request sv u s1
                          (c\<lparr>sessions := (sessions c)(s2 := x)\<rparr>))) s1
           = sessions (snd (handle_past_paper_request sv u s1 c)) s1
       \<and> sessions (snd (handle_past_paper_request sv u s1
                          (c\<lparr>sessions := (sessions c)(s2 := x)\<rparr>))) s2 = x
       \<and> llm_calls (snd (handle_past_paper_request sv u s1
                          (c\<lparr>sessions := (sessions c)(s2 := x)\<rparr>)))
           = llm_calls (snd (handle_past_paper_request sv u s1 c))"
  using assms
  by (auto simp: handle_past_paper_request_def get_or_create_session_def Let_def split_beta
           split: option.splits)

theorem handle_frame_witness:
  "''api'' \<noteq> ''cli''
   \<and> sessions (snd (handle_past_paper_request
         (fixed_services (Inr ''generated'') two_question_paper) ''next'' ''api''
         (empty_chain\<lparr>sessions := (sessions empty_chain)(''cli'' \<mapsto> new_session)\<rparr>))) ''cli''
       = Some new_session
   \<and> fst (handle_past_paper_request
         (fixed_services (Inr ''generated'') two_question_paper) ''next'' ''api''
         (empty_chain\<lparr>sessions := (sessions empty_chain)(''cli'' \<mapsto> new_session)\<rparr>))
       = fst (handle_past_paper_request
         (fixed_services (Inr ''generated'') two_question_paper) ''next'' ''api'' empty_chain)"
proof -
  have d: "''api'' \<noteq> ''cli''" by simp
  from d handle_frame [OF d, of "fixed_services (Inr ''generated'') two_question_paper"
      "''next''" empty_chain "Some new_session"]
  show ?thesis by simp
qed

section \<open>An example run\<close>

text \<open>
  The utterances of the example runs, classified by the code, and the state after
  the request that starts the paper.
\<close>

lemma start_request_is_new: "is_new_paper_request ''go through CSC231 2024 past paper''"
  by code_simp

lemma start_request_details:
  "extract_paper_details ''go through CSC231 2024 past paper'' = (Some ''CSC231'', Some ''2024'')"
  by code_simp

lemma two_question_paper_questions:
  "extract_questions two_question_paper
     = [''Question 1: What is a firewall?'', ''Question 2: What is NAT used for?'']"
  by code_simp

lemma started_state:
  "started (fixed_services g two_question_paper)
     = \<lparr>sessions = [''api'' \<mapsto> first_batch_shown], llm_calls = []\<rparr>"
proof -
  have docs: "two_question_paper \<noteq> []" by (simp add: two_question_paper_def)
  have "start_new_paper (fixed_services g two_question_paper)
          ''go through CSC231 2024 past paper'' new_session
        = (Inr (Starting (Some ''CSC231'') (Some ''2024'') 2
             [''Question 1: What is a firewall?'', ''Question 2: What is NAT used for?'']
             False), first_batch_shown)"
    using docs
    by (simp add: start_new_paper_def start_request_details two_question_paper_questions
          fixed_services_def or_default_def start_paper_def new_session_def
          get_next_batch_def py_slice_def first_batch_shown_def Let_def)
  then show ?thesis
    by (simp add: started_def handle_past_paper_request_def get_or_create_session_def
          empty_chain_def new_session_def start_request_is_new)
qed

lemma clarify_request_not_new: "\<not> is_new_paper_request ''clarify question 1''"
  by code_simp

lemma clarify_request_intent:
  "parse_user_intent ''clarify question 1'' =
     \<lparr>wants_next = False, wants_clarification = True, has_answer = False,
      wants_stop = False, question_num = Some 1, answer_text = None\<rparr>"
  by code_simp

lemma answer3_request_not_new: "\<not> is_new_paper_request ''my answer for question 3 is X''"
  by code_simp

lemma answer3_request_intent:
  "parse_user_intent ''my answer for question 3 is X'' =
     \<lparr>wants_next = False, wants_clarification = False, has_answer = True,
      wants_stop = False, question_num = Some 3,
      answer_text = Some ''for question 3 is X''\<rparr>"
  by code_simp

lemma answer1_request_not_new: "\<not> is_new_paper_request ''my answer for question 1 is X''"
  by code_simp

lemma answer1_request_intent:
  "parse_user_intent ''my answer for question 1 is X'' =
     \<lparr>wants_next = False, wants_clarification = False, has_answer = True,
      wants_stop = False, question_num = Some 1,
      answer_text = Some ''for question 1 is X''\<rparr>"
  by code_simp

section \<open>Clarifications\<close>

lemma provide_clarification_valid:
  assumes "is_active s" and "question_num i = Some k"
    and "1 \<le> k" and "k \<le> int (length (questions s))"
  shows "provide_clarification sv i s calls =
           ((case llm sv calls (ClarifyPrompt (questions s ! nat (k - 1))) of
               Inl e \<Rightarrow> Inl e
             | Inr generated \<Rightarrow> Inr (Clarification k generated)),
            s, calls @ [ClarifyPrompt (questions s ! nat (k - 1))])"
proof -
  from assms(3,4) have "py_index (questions s) (k - 1) = Inr (questions s ! nat (k - 1))"
    by (simp add: py_index_def)
  with assms show ?thesis
    by (simp add: provide_clarification_def split: sum.splits)
qed

lemma clarify_after_start:
  "handle_past_paper_request (fixed_services g docs) ''clarify question 1'' ''api''
     \<lparr>sessions = [''api'' \<mapsto> first_batch_shown], llm_calls = calls\<rparr>
   = ((case g of Inl e \<Rightarrow> Inl e | Inr generated \<Rightarrow> Inr (Clarification 1 generated)),
      \<lparr>sessions = [''api'' \<mapsto> first_batch_shown],
       llm_calls = calls @ [ClarifyPrompt ''Question 1: What is a firewall?'']\<rparr>)"
proof -
  let ?i = "parse_user_intent ''clarify question 1''"
  have a: "is_active first_batch_shown" by (simp add: first_batch_shown_def)
  have q: "question_num ?i = Some 1" by (simp add: clarify_request_intent)
  have r: "(1::int) \<le> 1" "1 \<le> int (length (questions first_batch_shown))"
    by (simp_all add: first_batch_shown_def)
  have p: "provide_clarification (fixed_services g docs) ?i first_batch_shown calls
      = ((case g of Inl e \<Rightarrow> Inl e | Inr generated \<Rightarrow> Inr (Clarification 1 generated)),
         first_batch_shown, calls @ [ClarifyPrompt ''Question 1: What is a firewall?''])"
    unfolding provide_clarification_valid [OF a q r]
    by (simp add: fixed_services_def first_batch_shown_def)
  have w: "\<not> wants_stop ?i" "\<not> wants_next ?i" "wants_clarification ?i"
    by (simp_all add: clarify_request_intent)
  show ?thesis
    using a w p clarify_request_not_new
    by (simp add: handle_past_paper_request_def get_or_create_session_def)
qed

text \<open>
  Claim C3, as the code has it. For an active session and a valid ordinal \<open>k\<close>,
  every clarification request calls the language model exactly once, on the text of
  question \<open>k\<close>, and leaves the session as it was: nothing is stored. A second
  request for the same ordinal therefore makes a second call.
\<close>

theorem clarification_generated_on_every_request:
  assumes "is_active s" and "question_num i = Some k"
    and "1 \<le> k" and "k \<le> int (length (questions s))"
  shows "provide_clarification sv i s calls =
           ((case llm sv calls (ClarifyPrompt (questions s ! nat (k - 1))) of
               Inl e \<Rightarrow> Inl e
             | Inr generated \<Rightarrow> Inr (Clarification k generated)),
            s, calls @ [ClarifyPrompt (questions s ! nat (k - 1))])
       \<and> snd (provide_clarification sv i s
                (calls @ [ClarifyPrompt (questions s ! nat (k - 1))])) =
           (s, calls @ [ClarifyPrompt (questions s ! nat (k - 1)),
                        ClarifyPrompt (questions s ! nat (k - 1))])"
  by (simp add: provide_clarification_valid [OF assms])

theorem clarification_generated_on_every_request_witness:
  "is_active (start_paper new_session ''CSC231'' ''2024'' [''Question 1: What is a firewall?''])
   \<and> question_num \<lparr>wants_next = False, wants_clarification = True, has_answer = False,
        wants_stop = False, question_num = Some 1, answer_text = None\<rparr> = Some 1
   \<and> (1::int) \<le> 1
   \<and> 1 \<le> int (length (questions
        (start_paper new_session ''CSC231'' ''2024'' [''Question 1: What is a firewall?''])))
   \<and> provide_clarification (fixed_services (Inr ''generated'') [])
        \<lparr>wants_next = False, wants_clarification = True, has_answer = False,
         wants_stop = False, question_num = Some 1, answer_text = None\<rparr>
        (start_paper new_session ''CSC231'' ''2024'' [''Question 1: What is a firewall?''])
        [] =
       (Inr (Clarification 1 ''generated''),
        start_paper new_session ''CSC231'' ''2024'' [''Question 1: What is a firewall?''],
        [ClarifyPrompt ''Question 1: What is a firewall?''])"
proof -
  let ?s = "start_paper new_session ''CSC231'' ''2024'' [''Question 1: What is a firewall?'']"
  let ?i = "\<lparr>wants_next = False, wants_clarification = True, has_answer = False,
        wants_stop = False, question_num = Some 1, answer_text = None\<rparr>"
  have a: "is_active ?s" by (simp add: start_paper_def)
  have q: "question_num ?i = Some 1" by simp
  have lo: "(1::int) \<le> 1" by simp
  have hi: "1 \<le> int (length (questions ?s))" by (simp add: start_paper_def)
  from clarification_generated_on_every_request
         [OF a q lo hi, of "fixed_services (Inr ''generated'') []" "[]"]
  have "provide_clarification (fixed_services (Inr ''generated'') []) ?i ?s [] =
       (Inr (Clarification 1 ''generated''), ?s,
        [ClarifyPrompt ''Question 1: What is a firewall?''])"
    by (simp add: fixed_services_def start_paper_def)
  with a q lo hi show ?thesis by blast
qed

text \<open>
  Claim C3 as stated fails: after a paper with two questions has been started under
  the id \<^verbatim>\<open>api\<close>, two requests \<^verbatim>\<open>clarify question 1\<close> in a row call the language
  model twice.
\<close>

theorem clarification_twice_calls_twice_counterexample:
  "llm_calls
     (snd (handle_past_paper_request
             (fixed_services (Inr ''generated'') two_question_paper)
             ''clarify question 1'' ''api''
             (snd (handle_past_paper_request
                     (fixed_services (Inr ''generated'') two_question_paper)
                     ''clarify question 1'' ''api''
                     (started (fixed_services (Inr ''generated'') two_question_paper))))))
   = [ClarifyPrompt ''Question 1: What is a firewall?'',
      ClarifyPrompt ''Question 1: What is a firewall?'']"
  by (simp add: started_state clarify_after_start)

section \<open>Answers\<close>

text \<open>
  \<^verbatim>\<open>_process_answer\<close> stores the answer before it looks the question up, and it has
  no range check: for an ordinal beyond the last question the answer is stored under
  that ordinal and the lookup raises \<^verbatim>\<open>IndexError\<close>.
\<close>

lemma process_answer_valid:
  assumes "is_active s" and "question_num i = Some k"
    and "1 \<le> k" and "k \<le> int (length (questions s))"
    and "answer_text i = Some a" and "a \<noteq> []"
  shows "process_answer sv i s calls =
           ((case llm sv calls (GradePrompt (questions s ! nat (k - 1)) a) of
               Inl e \<Rightarrow> Inl e
             | Inr feedback \<Rightarrow> Inr (Feedback k a feedback)),
            save_answer s k a, calls @ [GradePrompt (questions s ! nat (k - 1)) a])"
proof -
  from assms(3,4) have "py_index (questions s) (k - 1) = Inr (questions s ! nat (k - 1))"
    by (simp add: py_index_def)
  with assms show ?thesis
    by (simp add: process_answer_def save_answer_def split: sum.splits)
qed

lemma process_answer_beyond_last:
  assumes "is_active s" and "question_num i = Some n" and "int (length (questions s)) < n"
    and "answer_text i = Some a" and "a \<noteq> []"
  shows "process_answer sv i s calls = (Inl IndexError, save_answer s n a, calls)"
  using assms by (simp add: process_answer_def py_index_def save_answer_def)

lemma answer3_after_start:
  "handle_past_paper_request sv ''my answer for question 3 is X'' ''api''
     \<lparr>sessions = [''api'' \<mapsto> first_batch_shown], llm_calls = calls\<rparr>
   = (Inl IndexError,
      \<lparr>sessions = [''api'' \<mapsto> save_answer first_batch_shown 3 ''for question 3 is X''],
       llm_calls = calls\<rparr>)"
proof -
  let ?i = "parse_user_intent ''my answer for question 3 is X''"
  have a: "is_active first_batch_shown" by (simp add: first_batch_shown_def)
  have q: "question_num ?i = Some 3" by (simp add: answer3_request_intent)
  have r: "int (length (questions first_batch_shown)) < 3"
    by (simp add: first_batch_shown_def)
  have t: "answer_text ?i = Some ''for question 3 is X''"
    by (simp add: answer3_request_intent)
  have n: "''for question 3 is X'' \<noteq> []" by simp
  note p = process_answer_beyond_last [OF a q r t n, of sv calls]
  have w: "\<not> wants_stop ?i" "\<not> wants_next ?i" "\<not> wants_clarification ?i" "has_answer ?i"
    by (simp_all add: answer3_request_intent)
  show ?thesis
    using a w p answer3_request_not_new
    by (simp add: handle_past_paper_request_def get_or_create_session_def)
qed

lemma answer1_after_start:
  "handle_past_paper_request (fixed_services g docs) ''my answer for question 1 is X'' ''api''
     \<lparr>sessions = [''api'' \<mapsto> first_batch_shown], llm_calls = calls\<rparr>
   = ((case g of Inl e \<Rightarrow> Inl e
       | Inr feedback \<Rightarrow> Inr (Feedback 1 ''for question 1 is X'' feedback)),
      \<lparr>sessions = [''api'' \<mapsto> save_answer first_batch_shown 1 ''for question 1 is X''],
       llm_calls = calls @ [GradePrompt ''Question 1: What is a firewall?''
                              ''for question 1 is X'']\<rparr>)"
proof -
  let ?i = "parse_user_intent ''my answer for question 1 is X''"
  have a: "is_active first_batch_shown" by (simp add: first_batch_shown_def)
  have q: "question_num ?i = Some 1" by (simp add: answer1_request_intent)
  have r: "(1::int) \<le> 1" "1 \<le> int (length (questions first_batch_shown))"
    by (simp_all add: first_batch_shown_def)
  have t: "answer_text ?i = Some ''for question 1 is X''"
    by (simp add: answer1_request_intent)
  have n: "''for question 1 is X'' \<noteq> []" by simp
  have p: "process_answer (fixed_services g docs) ?i first_batch_shown calls
      = ((case g of Inl e \<Rightarrow> Inl e
          | Inr feedback \<Rightarrow> Inr (Feedback 1 ''for question 1 is X'' feedback)),
         save_answer first_batch_shown 1 ''for question 1 is X'',
         calls @ [GradePrompt ''Question 1: What is a firewall?'' ''for question 1 is X''])"
    unfolding process_answer_valid [OF a q r t n]
    by (simp add: fixed_services_def first_batch_shown_def)
  have w: "\<not> wants_stop ?i" "\<not> wants_next ?i" "\<not> wants_clarification ?i" "has_answer ?i"
    by (simp_all add: answer1_request_intent)
  show ?thesis
    using a w p answer1_request_not_new
    by (simp add: handle_past_paper_request_def get_or_create_session_def)
qed

text \<open>
  Claim C4 at its own example: a paper with two questions is active under the id
  \<^verbatim>\<open>api\<close> and the utterance is \<^verbatim>\<open>my answer for question 3 is X\<close>. The request
  ends with \<^verbatim>\<open>IndexError\<close>, and the answers map has gained the key 3.
\<close>

theorem answer_beyond_last_raises_and_is_stored:
  "fst (handle_past_paper_request
          (fixed_services (Inr ''generated'') two_question_paper)
          ''my answer for question 3 is X'' ''api''
          (started (fixed_services (Inr ''generated'') two_question_paper)))
     = Inl IndexError
   \<and> user_answers
       (the (sessions
          (snd (handle_past_paper_request
                  (fixed_services (Inr ''generated'') two_question_paper)
                  ''my answer for question 3 is X'' ''api''
                  (started (fixed_services (Inr ''generated'') two_question_paper))))
          ''api'')) 3
     = Some ''for question 3 is X''
   \<and> length (questions
       (the (sessions (started (fixed_services (Inr ''generated'') two_question_paper))
          ''api''))) = 2"
  unfolding started_state answer3_after_start
  by (simp add: save_answer_def first_batch_shown_def)

text \<open>The response part of the run above on its own.\<close>

theorem answer_beyond_last_raises_and_is_stored_witness:
  "fst (handle_past_paper_request
          (fixed_services (Inr ''generated'') two_question_paper)
          ''my answer for question 3 is X'' ''api''
          (started (fixed_services (Inr ''generated'') two_question_paper)))
     = Inl IndexError"
  by (rule answer_beyond_last_raises_and_is_stored [THEN conjunct1])

section \<open>Failure of the language model\<close>

text \<open>
  Neither \<^verbatim>\<open>_provide_clarification\<close> nor \<^verbatim>\<open>_process_answer\<close> catches an exception
  of \<^verbatim>\<open>chain.invoke\<close>: it leaves the handler.
\<close>

lemma clarification_failure_propagates:
  assumes "is_active s" and "question_num i = Some k"
    and "1 \<le> k" and "k \<le> int (length (questions s))"
    and "llm sv calls (ClarifyPrompt (questions s ! nat (k - 1))) = Inl e"
  shows "provide_clarification sv i s calls
           = (Inl e, s, calls @ [ClarifyPrompt (questions s ! nat (k - 1))])"
  by (simp add: provide_clarification_valid [OF assms(1-4)] assms(5))

lemma feedback_failure_propagates:
  assumes "is_active s" and "question_num i = Some k"
    and "1 \<le> k" and "k \<le> int (length (questions s))"
    and "answer_text i = Some a" and "a \<noteq> []"
    and "llm sv calls (GradePrompt (questions s ! nat (k - 1)) a) = Inl e"
  shows "process_answer sv i s calls
           = (Inl e, save_answer s k a, calls @ [GradePrompt (questions s ! nat (k - 1)) a])"
  by (simp add: process_answer_valid [OF assms(1-6)] assms(7))

text \<open>
  Claim C6 at an example: a paper with two questions is active under the id
  \<^verbatim>\<open>api\<close> and every call of the language model raises. A clarification request and
  an answer both end with that exception instead of a response; the answer has
  been recorded, and the cursor and the active flag are as before.
\<close>

theorem generation_failure_leaves_the_handler:
  "fst (handle_past_paper_request
          (fixed_services (Inl (ExternalError ''timeout'')) two_question_paper)
          ''clarify question 1'' ''api''
          (started (fixed_services (Inl (ExternalError ''timeout'')) two_question_paper)))
     = Inl (ExternalError ''timeout'')
   \<and> fst (handle_past_paper_request
          (fixed_services (Inl (ExternalError ''timeout'')) two_question_paper)
          ''my answer for question 1 is X'' ''api''
          (started (fixed_services (Inl (ExternalError ''timeout'')) two_question_paper)))
     = Inl (ExternalError ''timeout'')
   \<and> user_answers
       (the (sessions
          (snd (handle_past_paper_request
                  (fixed_services (Inl (ExternalError ''timeout'')) two_question_paper)
                  ''my answer for question 1 is X'' ''api''
                  (started (fixed_services (Inl (ExternalError ''timeout''))
                     two_question_paper))))
          ''api'')) 1
     = Some ''for question 1 is X''
   \<and> is_active
       (the (sessions
          (snd (handle_past_paper_request
                  (fixed_services (Inl (ExternalError ''timeout'')) two_question_paper)
                  ''my answer for question 1 is X'' ''api''
                  (started (fixed_services (Inl (ExternalError ''timeout''))
                     two_question_paper))))
          ''api''))
   \<and> current_batch
       (the (sessions
          (snd (handle_past_paper_request
                  (fixed_services (Inl (ExternalError ''timeout'')) two_question_paper)
                  ''my answer for question 1 is X'' ''api''
                  (started (fixed_services (Inl (ExternalError ''timeout''))
                     two_question_paper))))
          ''api'')) = 1"
  unfolding started_state clarify_after_start answer1_after_start
  by (simp add: save_answer_def first_batch_shown_def)

text \<open>The response to the clarification request of the run above on its own.\<close>

theorem generation_failure_leaves_the_handler_witness:
  "fst (handle_past_paper_request
          (fixed_services (Inl (ExternalError ''timeout'')) two_question_paper)
          ''clarify question 1'' ''api''
          (started (fixed_services (Inl (ExternalError ''timeout'')) two_question_paper)))
     = Inl (ExternalError ''timeout'')"
  by (rule generation_failure_leaves_the_handler [THEN conjunct1])

section \<open>Numbering of the extracted questions\<close>




section \<open>One pattern for all numbering conventions\<close>
















section \<open>Numbering in the fallback\<close>




end
